theory Spec2Isabelle
  imports Complex_Main
begin

section \<open>Data model of osiptel\_core.py\<close>

datatype TaskStatus = PENDING | IN_PROGRESS | SUCCESS | FAILED | SKIPPED

datatype ErrorType =
    TIMEOUT | PROXY_ERROR | PAGE_LOAD_ERROR | SELECTOR_NOT_FOUND
  | DATA_EXTRACTION_ERROR | BROWSER_CRASH | RATE_LIMITED | UNKNOWN

text \<open>The \<^verbatim>\<open>.value\<close> of an \<^verbatim>\<open>ErrorType\<close> member.\<close>

fun ErrorType_value :: "ErrorType \<Rightarrow> string" where
  "ErrorType_value TIMEOUT = ''timeout''"
| "ErrorType_value PROXY_ERROR = ''proxy_error''"
| "ErrorType_value PAGE_LOAD_ERROR = ''page_load_error''"
| "ErrorType_value SELECTOR_NOT_FOUND = ''selector_not_found''"
| "ErrorType_value DATA_EXTRACTION_ERROR = ''data_extraction_error''"
| "ErrorType_value BROWSER_CRASH = ''browser_crash''"
| "ErrorType_value RATE_LIMITED = ''rate_limited''"
| "ErrorType_value UNKNOWN = ''unknown''"

record PhoneLine =
  modalidad :: string
  numero :: string
  operadora :: string

record RUCResult =
  ruc :: string
  status :: TaskStatus
  lines :: "PhoneLine list"
  error_type :: "ErrorType option"
  error_message :: "string option"
  attempts :: int
  timestamp :: string
  duration_seconds :: real

definition success :: "RUCResult \<Rightarrow> bool" where
  "success r = (status r = SUCCESS)"

definition line_count :: "RUCResult \<Rightarrow> int" where
  "line_count r = int (length (lines r))"

text \<open>
  The fields of \<^verbatim>\<open>ScraperConfig\<close> that the engine reads. Python's \<^verbatim>\<open>float\<close> fields are
  modelled as reals, its unbounded \<^verbatim>\<open>int\<close> fields as \<open>int\<close>.
\<close>

record ScraperConfig =
  max_bandwidth_mb :: int
  estimated_kb_per_ruc :: real
  max_retries :: int
  retry_base_delay :: real
  retry_max_delay :: real
  retry_multiplier :: real
  checkpoint_interval :: int
  batch_save_size :: int

text \<open>The defaults of the dataclass.\<close>

definition default_config :: ScraperConfig where
  "default_config =
     \<lparr>max_bandwidth_mb = 9700, estimated_kb_per_ruc = 550, max_retries = 3,
      retry_base_delay = 5, retry_max_delay = 30, retry_multiplier = 2,
      checkpoint_interval = 25, batch_save_size = 1000\<rparr>"

section \<open>Statistics\<close>

record Statistics =
  total_rucs :: int
  processed :: int
  successful :: int
  failed :: int
  total_lines_found :: int
  estimated_bandwidth_kb :: real
  start_time :: "string option"
  end_time :: "string option"
  errors_by_type :: "string \<rightharpoonup> int"
  total_retries :: int

definition Statistics_init :: Statistics where
  "Statistics_init =
     \<lparr>total_rucs = 0, processed = 0, successful = 0, failed = 0, total_lines_found = 0,
      estimated_bandwidth_kb = 0, start_time = None, end_time = None,
      errors_by_type = Map.empty, total_retries = 0\<rparr>"

text \<open>\<^verbatim>\<open>self.errors_by_type[name] = self.errors_by_type.get(name, 0) + 1\<close>\<close>

definition count_error :: "(string \<rightharpoonup> int) \<Rightarrow> string \<Rightarrow> (string \<rightharpoonup> int)" where
  "count_error m name = m(name \<mapsto> (case m name of None \<Rightarrow> 0 | Some c \<Rightarrow> c) + 1)"

text \<open>\<^verbatim>\<open>Statistics.update(result, estimated_kb)\<close>, statement by statement.\<close>

definition update :: "Statistics \<Rightarrow> RUCResult \<Rightarrow> real \<Rightarrow> Statistics" where
  "update s result estimated_kb =
     (let s1 = s\<lparr>processed := processed s + 1\<rparr>;
          s2 = s1\<lparr>estimated_bandwidth_kb := estimated_bandwidth_kb s1 + estimated_kb\<rparr>;
          s3 = (if success result
                then (let t = s2\<lparr>successful := successful s2 + 1\<rparr>
                      in t\<lparr>total_lines_found := total_lines_found t + line_count result\<rparr>)
                else (let t = s2\<lparr>failed := failed s2 + 1\<rparr>
                      in case error_type result of
                           None \<Rightarrow> t
                         | Some e \<Rightarrow>
                             t\<lparr>errors_by_type := count_error (errors_by_type t) (ErrorType_value e)\<rparr>))
      in s3\<lparr>total_retries := total_retries s3 + max 0 (attempts result - 1)\<rparr>)"

section \<open>ProgressManager\<close>

text \<open>An entry of the \<^verbatim>\<open>failed_rucs\<close> dictionary: the three keys the code stores.\<close>

record FailureInfo =
  info_error_type :: string
  info_error_message :: "string option"
  info_attempts :: int

record ProgressManager =
  progress_path :: string
  processed_rucs :: "string set"
  failed_rucs :: "string \<rightharpoonup> FailureInfo"
  statistics :: Statistics

definition ProgressManager_init :: "string \<Rightarrow> ProgressManager" where
  "ProgressManager_init path =
     \<lparr>progress_path = path, processed_rucs = {}, failed_rucs = Map.empty,
      statistics = Statistics_init\<rparr>"

definition add_result :: "ProgressManager \<Rightarrow> RUCResult \<Rightarrow> real \<Rightarrow> ProgressManager" where
  "add_result pm result estimated_kb =
     (let pm1 = pm\<lparr>processed_rucs := insert (ruc result) (processed_rucs pm)\<rparr>;
          pm2 = pm1\<lparr>statistics := update (statistics pm1) result estimated_kb\<rparr>
      in if \<not> success result
         then pm2\<lparr>failed_rucs := (failed_rucs pm2)(ruc result \<mapsto>
                \<lparr>info_error_type =
                   (case error_type result of Some e \<Rightarrow> ErrorType_value e | None \<Rightarrow> ''unknown''),
                 info_error_message = error_message result,
                 info_attempts = attempts result\<rparr>)\<rparr>
         else pm2)"

definition get_pending_rucs :: "ProgressManager \<Rightarrow> string list \<Rightarrow> string list" where
  "get_pending_rucs pm all_rucs = filter (\<lambda>r. r \<notin> processed_rucs pm) all_rucs"

text \<open>The body of \<^verbatim>\<open>is_bandwidth_exceeded\<close> is the single statement \<^verbatim>\<open>return False\<close>.\<close>

definition is_bandwidth_exceeded :: "ScraperConfig \<Rightarrow> ProgressManager \<Rightarrow> bool" where
  "is_bandwidth_exceeded cfg pm = False"

text \<open>Recording a sequence of results, as the result consumer does one by one.\<close>

definition record_results :: "ProgressManager \<Rightarrow> RUCResult list \<Rightarrow> real \<Rightarrow> ProgressManager" where
  "record_results pm rs estimated_kb = foldl (\<lambda>m r. add_result m r estimated_kb) pm rs"

section \<open>Python string helpers\<close>

text \<open>
  \<^verbatim>\<open>str(n)\<close> for an unbounded integer: the decimal digits, most significant first, with a
  leading minus sign for a negative number.
\<close>

definition digit_char :: "nat \<Rightarrow> char" where
  "digit_char d = ''0123456789'' ! d"

fun str_nat :: "nat \<Rightarrow> string" where
  "str_nat n = (if n < 10 then [digit_char n] else str_nat (n div 10) @ [digit_char (n mod 10)])"

declare str_nat.simps [simp del]

definition str_int :: "int \<Rightarrow> string" where
  "str_int i = (if i < 0 then CHR ''-'' # str_nat (nat (- i)) else str_nat (nat i))"





text \<open>\<^verbatim>\<open>sep.join(parts)\<close>\<close>

fun join :: "string \<Rightarrow> string list \<Rightarrow> string" where
  "join sep [] = []"
| "join sep [x] = x"
| "join sep (x # y # ys) = x @ sep @ join sep (y # ys)"

section \<open>ProxyManager (osiptel\_worker.py)\<close>

record ProxyManager =
  session_counter :: int

definition ProxyManager_init :: ProxyManager where
  "ProxyManager_init = \<lparr>session_counter = 0\<rparr>"

text \<open>
  \<^verbatim>\<open>get_session_id(worker_id)\<close>. The body runs under the manager's lock and contains no
  suspension point, so a call is one atomic step on the counter. The two readings of
  the outside world are parameters: \<open>now_ms\<close> is \<^verbatim>\<open>int(time.time() * 1000)\<close> and
  \<open>random_part\<close> is the value drawn by \<^verbatim>\<open>random.randint(10000, 99999)\<close>.
  The result is the updated manager and the token.
\<close>

definition get_session_id :: "ProxyManager \<Rightarrow> int \<Rightarrow> int \<Rightarrow> int \<Rightarrow> ProxyManager \<times> string" where
  "get_session_id pm worker_id now_ms random_part =
     (let pm' = pm\<lparr>session_counter := session_counter pm + 1\<rparr>;
          timestamp = now_ms mod 100000
      in (pm', ''w'' @ str_int worker_id @ ''s'' @ str_int (session_counter pm')
               @ ''t'' @ str_int timestamp @ ''r'' @ str_int random_part))"

text \<open>
  Any number of calls, by any workers in any order: each element of the list is one call
  (worker id, clock reading, random draw), in the order in which the lock admits them.
\<close>

fun session_ids :: "ProxyManager \<Rightarrow> (int \<times> int \<times> int) list \<Rightarrow> string list" where
  "session_ids pm [] = []"
| "session_ids pm ((worker_id, now_ms, random_part) # calls) =
     (case get_session_id pm worker_id now_ms random_part of
        (pm', token) \<Rightarrow> token # session_ids pm' calls)"

section \<open>Worker retry loop (osiptel\_worker.py)\<close>









section \<open>ResultsWriter (osiptel\_core.py)\<close>

text \<open>
  One entry of \<^verbatim>\<open>_batch_times\<close> (the counts; the clock readings and the durations
  derived from them are left out), and the summary totals of the timing report.
\<close>

record BatchTime =
  bt_batch_number :: int
  bt_filename :: string
  bt_rucs_count :: int
  bt_successful_count :: int
  bt_total_lines :: int

record TimingSummary =
  total_batches :: int
  total_rucs_processed :: int
  total_successful :: int
  total_phone_lines :: int

text \<open>A batch file as written by \<^verbatim>\<open>_save_batch\<close>: its name, the header line, one line per result.\<close>

record BatchFile =
  bf_name :: string
  bf_header :: string
  bf_rows :: "string list"

text \<open>
  The writer's fields, with the files it writes made part of the state: \<open>main_file\<close> is the
  sequence of strings appended to \<^verbatim>\<open>output_path\<close>, \<open>batch_files\<close> the batch files in the
  order in which they were written, \<open>timing_report\<close> the last timing report written.
\<close>

record ResultsWriter =
  header_written :: bool
  max_lines :: int
  batch_results :: "RUCResult list"
  total_saved :: int
  batch_number :: int
  input_filename :: string
  batch_times :: "BatchTime list"
  main_file :: "string list"
  batch_files :: "BatchFile list"
  timing_report :: "TimingSummary option"

definition ResultsWriter_init :: "string \<Rightarrow> ResultsWriter" where
  "ResultsWriter_init name =
     \<lparr>header_written = False, max_lines = 0, batch_results = [], total_saved = 0,
      batch_number = 0, input_filename = name, batch_times = [], main_file = [],
      batch_files = [], timing_report = None\<rparr>"

definition generate_header :: "int \<Rightarrow> string list" where
  "generate_header n =
     ''RUC'' # concat (map (\<lambda>i. [''Modalidad_'' @ str_int i,
                                   ''Numero_Telefonico_'' @ str_int i,
                                   ''Empresa_Operadora_'' @ str_int i]) [1 .. n])"

text \<open>\<^verbatim>\<open>_escape_csv\<close>: \<open>CHR 0x22\<close> is the double quote, \<open>CHR 0x0A\<close> the line feed.\<close>

definition escape_csv :: "string \<Rightarrow> string" where
  "escape_csv v =
     (if CHR '','' \<in> set v \<or> CHR 0x22 \<in> set v \<or> CHR 0x0A \<in> set v
      then [CHR 0x22] @ concat (map (\<lambda>c. if c = CHR 0x22 then [CHR 0x22, CHR 0x22] else [c]) v)
           @ [CHR 0x22]
      else v)"

text \<open>
  The dictionary \<^verbatim>\<open>row_data\<close>: the loop over \<^verbatim>\<open>enumerate(result.lines, 1)\<close> stores three keys
  per record; \<^verbatim>\<open>row_data.get(key, '')\<close> reads one back.
\<close>

fun fill_row_data :: "(string \<rightharpoonup> string) \<Rightarrow> int \<Rightarrow> PhoneLine list \<Rightarrow> (string \<rightharpoonup> string)" where
  "fill_row_data d idx [] = d"
| "fill_row_data d idx (l # ls) =
     fill_row_data
       (d(''Modalidad_'' @ str_int idx \<mapsto> modalidad l,
          ''Numero_Telefonico_'' @ str_int idx \<mapsto> numero l,
          ''Empresa_Operadora_'' @ str_int idx \<mapsto> operadora l))
       (idx + 1) ls"

definition row_data :: "RUCResult \<Rightarrow> (string \<rightharpoonup> string)" where
  "row_data result = fill_row_data [''RUC'' \<mapsto> ruc result] 1 (lines result)"

definition dict_get :: "(string \<rightharpoonup> string) \<Rightarrow> string \<Rightarrow> string \<Rightarrow> string" where
  "dict_get d k dflt = (case d k of None \<Rightarrow> dflt | Some v \<Rightarrow> v)"

text \<open>The list \<^verbatim>\<open>values\<close> of a row, and the line written for it.\<close>

definition row_values :: "RUCResult \<Rightarrow> string list" where
  "row_values result =
     (let d = row_data result
      in dict_get d ''RUC'' [] #
         concat (map (\<lambda>i. [escape_csv (dict_get d (''Modalidad_'' @ str_int i) []),
                            escape_csv (dict_get d (''Numero_Telefonico_'' @ str_int i) []),
                            escape_csv (dict_get d (''Empresa_Operadora_'' @ str_int i) [])])
                     [1 .. 100]))"

definition csv_row :: "RUCResult \<Rightarrow> string" where
  "csv_row result = join '','' (row_values result) @ [CHR 0x0A]"

definition header_line :: string where
  "header_line = join '','' (generate_header 100) @ [CHR 0x0A]"

definition save_timing_report :: "ResultsWriter \<Rightarrow> ResultsWriter" where
  "save_timing_report w =
     w\<lparr>timing_report := Some
         \<lparr>total_batches = int (length (batch_times w)),
          total_rucs_processed = sum_list (map bt_rucs_count (batch_times w)),
          total_successful = sum_list (map bt_successful_count (batch_times w)),
          total_phone_lines = sum_list (map bt_total_lines (batch_times w))\<rparr>\<rparr>"

definition save_batch :: "ScraperConfig \<Rightarrow> ResultsWriter \<Rightarrow> ResultsWriter" where
  "save_batch cfg w =
     (if batch_results w = [] then w
      else
        (let w1 = w\<lparr>batch_number := batch_number w + 1\<rparr>;
             batch_filename = input_filename w1 @ ''_'' @ str_int (batch_save_size cfg)
                              @ ''_parte'' @ str_int (batch_number w1) @ ''.csv'';
             w2 = w1\<lparr>batch_files := batch_files w1 @
                       [\<lparr>bf_name = batch_filename, bf_header = header_line,
                         bf_rows = map csv_row (batch_results w1)\<rparr>]\<rparr>;
             successful_count = int (length (filter success (batch_results w2)));
             total_lines = sum_list (map line_count (batch_results w2));
             w3 = w2\<lparr>batch_times := batch_times w2 @
                       [\<lparr>bt_batch_number = batch_number w2, bt_filename = batch_filename,
                         bt_rucs_count = int (length (batch_results w2)),
                         bt_successful_count = successful_count,
                         bt_total_lines = total_lines\<rparr>]\<rparr>;
             w4 = save_timing_report w3;
             w5 = w4\<lparr>total_saved := total_saved w4 + int (length (batch_results w4))\<rparr>
         in w5\<lparr>batch_results := []\<rparr>))"

definition write_result :: "ScraperConfig \<Rightarrow> ResultsWriter \<Rightarrow> RUCResult \<Rightarrow> ResultsWriter" where
  "write_result cfg w result =
     (let w1 = w\<lparr>max_lines := 100\<rparr>;
          w2 = w1\<lparr>batch_results := batch_results w1 @ [result]\<rparr>;
          write_header = (\<not> header_written w2);
          w3 = (if write_header
                then w2\<lparr>main_file := main_file w2 @ [header_line], header_written := True\<rparr>
                else w2);
          w4 = w3\<lparr>main_file := main_file w3 @ [csv_row result]\<rparr>
      in if int (length (batch_results w4)) \<ge> batch_save_size cfg
         then save_batch cfg w4
         else w4)"

definition finalize :: "ScraperConfig \<Rightarrow> ResultsWriter \<Rightarrow> ResultsWriter" where
  "finalize cfg w =
     (let w1 = (if batch_results w \<noteq> [] then save_batch cfg w else w)
      in if batch_times w1 \<noteq> [] then save_timing_report w1 else w1)"

text \<open>Appending a sequence of results, then the number of results in each batch file.\<close>

definition write_results :: "ScraperConfig \<Rightarrow> ResultsWriter \<Rightarrow> RUCResult list \<Rightarrow> ResultsWriter" where
  "write_results cfg w rs = foldl (write_result cfg) w rs"

definition batch_sizes :: "ResultsWriter \<Rightarrow> nat list" where
  "batch_sizes w = map (\<lambda>f. length (bf_rows f)) (batch_files w)"

section \<open>ProgressManager.save and the files it touches\<close>

text \<open>
  The dictionary \<^verbatim>\<open>data\<close> that \<^verbatim>\<open>save\<close> serializes. \<^verbatim>\<open>list(self.processed_rucs)\<close> lists the
  set in an unspecified order and \<^verbatim>\<open>load\<close> turns the list back into a set, so the entry
  is modelled as the set; \<^verbatim>\<open>statistics.to_dict()\<close> is modelled by the counters it is computed
  from.
\<close>

record ProgressData =
  data_processed_rucs :: "string set"
  data_failed_rucs :: "string \<rightharpoonup> FailureInfo"
  data_statistics :: Statistics
  data_last_save :: string

definition progress_data :: "ProgressManager \<Rightarrow> string \<Rightarrow> ProgressData" where
  "progress_data pm now =
     \<lparr>data_processed_rucs = processed_rucs pm, data_failed_rucs = failed_rucs pm,
      data_statistics = statistics pm, data_last_save = now\<rparr>"

text \<open>
  The disk is a map from paths to file contents, together with the state of the manager's
  lock. The steps of \<^verbatim>\<open>save\<close>: entering and leaving \<^verbatim>\<open>async with self._lock\<close>, opening a
  file with mode \<^verbatim>\<open>'w'\<close> (which creates or truncates it), writing a piece of text at its end,
  and \<^verbatim>\<open>os.replace\<close>, which moves a file onto another path in one step and raises when the
  source is missing.
\<close>

record disk =
  files :: "string \<rightharpoonup> string"
  lock_held :: bool

datatype fs_op = Acquire | Release | Open_w string | Write string string | Replace string string

datatype fs_error = FileNotFoundError

fun exec_op :: "fs_op \<Rightarrow> disk \<Rightarrow> fs_error + disk" where
  "exec_op Acquire d = Inr (d\<lparr>lock_held := True\<rparr>)"
| "exec_op Release d = Inr (d\<lparr>lock_held := False\<rparr>)"
| "exec_op (Open_w p) d = Inr (d\<lparr>files := (files d)(p \<mapsto> [])\<rparr>)"
| "exec_op (Write p s) d =
     Inr (d\<lparr>files := (files d)(p \<mapsto> (case files d p of None \<Rightarrow> [] | Some c \<Rightarrow> c) @ s)\<rparr>)"
| "exec_op (Replace src dst) d =
     (case files d src of
        None \<Rightarrow> Inl FileNotFoundError
      | Some c \<Rightarrow> Inr (d\<lparr>files := ((files d)(src := None))(dst \<mapsto> c)\<rparr>))"

fun run_ops :: "fs_op list \<Rightarrow> disk \<Rightarrow> fs_error + disk" where
  "run_ops [] d = Inr d"
| "run_ops (x # xs) d = (case exec_op x d of Inl e \<Rightarrow> Inl e | Inr d' \<Rightarrow> run_ops xs d')"

text \<open>
  The text handed to \<^verbatim>\<open>f.write\<close> reaches the file in pieces; \<open>cuts\<close> gives the sizes of the
  pieces before the last one.
\<close>

fun pieces :: "nat list \<Rightarrow> string \<Rightarrow> string list" where
  "pieces [] s = [s]"
| "pieces (n # ns) s = take n s # pieces ns (drop n s)"

text \<open>
  The steps of \<^verbatim>\<open>save\<close>, in order. \<open>dumps\<close> stands for \<^verbatim>\<open>json.dumps(data, indent=2,
  ensure_ascii=False)\<close>, \<open>now\<close> for \<^verbatim>\<open>datetime.now().isoformat()\<close>.
\<close>

definition save_ops ::
  "(ProgressData \<Rightarrow> string) \<Rightarrow> ProgressManager \<Rightarrow> string \<Rightarrow> nat list \<Rightarrow> fs_op list" where
  "save_ops dumps pm now cuts =
     (let data = progress_data pm now;
          temp_path = progress_path pm @ ''.tmp''
      in [Acquire, Open_w temp_path]
         @ map (Write temp_path) (pieces cuts (dumps data))
         @ [Replace temp_path (progress_path pm), Release])"

definition save ::
  "(ProgressData \<Rightarrow> string) \<Rightarrow> ProgressManager \<Rightarrow> string \<Rightarrow> nat list \<Rightarrow> disk \<Rightarrow> fs_error + disk" where
  "save dumps pm now cuts d = run_ops (save_ops dumps pm now cuts) d"

section \<open>The result consumer and the seeding of the task queue (osiptel\_main.py)\<close>

record Consumer =
  progress_manager :: ProgressManager
  results_writer :: ResultsWriter
  checkpoint_counter :: int
  storage :: disk

text \<open>
  One iteration of the loop of \<^verbatim>\<open>_process_results\<close> for a result taken from the queue.
  \<open>clock\<close> gives the time string for a checkpoint, indexed by the number of results
  processed so far.
\<close>

definition consume_result ::
  "ScraperConfig \<Rightarrow> (ProgressData \<Rightarrow> string) \<Rightarrow> (int \<Rightarrow> string) \<Rightarrow> Consumer \<Rightarrow> RUCResult \<Rightarrow>
   fs_error + Consumer" where
  "consume_result cfg dumps clock st result =
     (let estimated_kb = estimated_kb_per_ruc cfg;
          st1 = st\<lparr>progress_manager := add_result (progress_manager st) result estimated_kb\<rparr>;
          st2 = (if success result
                 then st1\<lparr>results_writer := write_result cfg (results_writer st1) result\<rparr>
                 else st1);
          st3 = st2\<lparr>checkpoint_counter := checkpoint_counter st2 + 1\<rparr>
      in if checkpoint_counter st3 \<ge> checkpoint_interval cfg
         then (case save dumps (progress_manager st3)
                      (clock (processed (statistics (progress_manager st3)))) [] (storage st3) of
                 Inl e \<Rightarrow> Inl e
               | Inr d \<Rightarrow> Inr (st3\<lparr>storage := d, checkpoint_counter := 0\<rparr>))
         else Inr st3)"

text \<open>
  The loop itself, over the items that arrive on the result queue: \<open>None\<close> is the sentinel
  that ends it.
\<close>

fun process_results ::
  "ScraperConfig \<Rightarrow> (ProgressData \<Rightarrow> string) \<Rightarrow> (int \<Rightarrow> string) \<Rightarrow> Consumer \<Rightarrow>
   RUCResult option list \<Rightarrow> fs_error + Consumer" where
  "process_results cfg dumps clock st [] = Inr st"
| "process_results cfg dumps clock st (None # items) = Inr st"
| "process_results cfg dumps clock st (Some result # items) =
     (case consume_result cfg dumps clock st result of
        Inl e \<Rightarrow> Inl e
      | Inr st' \<Rightarrow> process_results cfg dumps clock st' items)"

text \<open>
  What \<^verbatim>\<open>run\<close> puts on the task queue: nothing when no id is pending (it returns before
  the queues are created), otherwise the pending ids followed by one \<^verbatim>\<open>None\<close> per worker.
\<close>

definition seed_ruc_queue :: "ProgressManager \<Rightarrow> string list \<Rightarrow> nat \<Rightarrow> string option list" where
  "seed_ruc_queue pm all_rucs max_workers =
     (let pending_rucs = get_pending_rucs pm all_rucs
      in if pending_rucs = [] then []
         else map Some pending_rucs @ replicate max_workers None)"

section \<open>Auxiliary notions used in the proofs\<close>

text \<open>A step that touches nothing but the file at \<open>t\<close>.\<close>

definition temp_only :: "string \<Rightarrow> fs_op \<Rightarrow> bool" where
  "temp_only t x = (case x of Open_w p \<Rightarrow> p = t | Write p s \<Rightarrow> p = t | _ \<Rightarrow> False)"

text \<open>The steps of \<open>save\<close> that come before the replacement.\<close>

definition save_front :: "string \<Rightarrow> string \<Rightarrow> nat list \<Rightarrow> fs_op list" where
  "save_front t text cuts = [Acquire, Open_w t] @ map (Write t) (pieces cuts text)"

text \<open>The decimal digits, and the format of a session token.\<close>

definition is_digit :: "char \<Rightarrow> bool" where
  "is_digit c = (c \<in> set ''0123456789'')"

definition session_token :: "int \<Rightarrow> int \<Rightarrow> int \<Rightarrow> int \<Rightarrow> string" where
  "session_token worker_id counter ts random_part =
     ''w'' @ str_int worker_id @ ''s'' @ str_int counter @ ''t'' @ str_int ts
     @ ''r'' @ str_int random_part"


text \<open>The name of the batch file with a given number.\<close>

definition batch_file_name :: "ScraperConfig \<Rightarrow> string \<Rightarrow> int \<Rightarrow> string" where
  "batch_file_name cfg name k =
     name @ ''_'' @ str_int (batch_save_size cfg) @ ''_parte'' @ str_int k @ ''.csv''"

text \<open>
  What holds of the writer after the results \<open>rs\<close> have been appended to a fresh writer
  \<open>w0\<close>: the buffer holds the remainder, the files hold the full batches.
\<close>

definition batches_inv :: "ScraperConfig \<Rightarrow> ResultsWriter \<Rightarrow> RUCResult list \<Rightarrow> ResultsWriter \<Rightarrow> bool" where
  "batches_inv cfg w0 rs w =
     (let B = nat (batch_save_size cfg); n = length rs
      in length (batch_results w) = n mod B \<and>
         batch_sizes w = replicate (n div B) B \<and>
         batch_number w = int (n div B) \<and>
         map bf_name (batch_files w)
           = map (\<lambda>k. batch_file_name cfg (input_filename w0) (int k)) [1 ..< Suc (n div B)] \<and>
         input_filename w = input_filename w0 \<and>
         concat (map bf_rows (batch_files w)) @ map csv_row (batch_results w) = map csv_row rs)"


section \<open>Sample inputs\<close>

definition ok_result :: RUCResult where
  "ok_result =
     \<lparr>ruc = ''20100000001'', status = SUCCESS,
      lines = [\<lparr>modalidad = ''Postpago'', numero = ''999111222'', operadora = ''Movistar, SA''\<rparr>],
      error_type = None, error_message = None, attempts = 1,
      timestamp = ''2025-01-01T00:00:00'', duration_seconds = 12\<rparr>"

definition failed_result :: RUCResult where
  "failed_result =
     \<lparr>ruc = ''20100000002'', status = FAILED, lines = [],
      error_type = Some TIMEOUT, error_message = Some ''Timeout waiting for page/selector'',
      attempts = 3, timestamp = ''2025-01-01T00:01:00'', duration_seconds = 45\<rparr>"









text \<open>A configuration with batches of three results.\<close>

definition batches_config :: ScraperConfig where
  "batches_config = default_config\<lparr>batch_save_size := 3\<rparr>"

section \<open>Properties of the decimal rendering of integers\<close>

lemma lt10_cases:
  "(d::nat) < 10 \<Longrightarrow> d = 0 \<or> d = 1 \<or> d = 2 \<or> d = 3 \<or> d = 4 \<or> d = 5 \<or> d = 6 \<or> d = 7 \<or> d = 8 \<or> d = 9"
  by arith

lemma digit_char_values:
  "digit_char 0 = CHR ''0''" "digit_char 1 = CHR ''1''" "digit_char 2 = CHR ''2''"
  "digit_char 3 = CHR ''3''" "digit_char 4 = CHR ''4''" "digit_char 5 = CHR ''5''"
  "digit_char 6 = CHR ''6''" "digit_char 7 = CHR ''7''" "digit_char 8 = CHR ''8''"
  "digit_char 9 = CHR ''9''" "digit_char (Suc 0) = CHR ''1''"
  by (simp_all add: digit_char_def)

lemma digit_char_is_digit: "d < 10 \<Longrightarrow> is_digit (digit_char d)"
  by (drule lt10_cases) (auto simp: digit_char_values is_digit_def)

lemma digit_char_inj: "a < 10 \<Longrightarrow> b < 10 \<Longrightarrow> digit_char a = digit_char b \<Longrightarrow> a = b"
  by (drule lt10_cases, drule lt10_cases) (auto simp: digit_char_values)

lemma str_nat_not_Nil: "str_nat n \<noteq> []" "[] \<noteq> str_nat n"
  by (subst str_nat.simps, simp)+

lemma str_nat_digits: "\<forall>c \<in> set (str_nat n). is_digit c"
proof (induction n rule: str_nat.induct)
  case (1 n)
  show ?case
  proof (cases "n < 10")
    case True
    then show ?thesis by (subst str_nat.simps) (simp add: digit_char_is_digit)
  next
    case False
    with 1 show ?thesis by (subst str_nat.simps) (simp add: digit_char_is_digit)
  qed
qed

lemma str_nat_inj: "str_nat n = str_nat m \<Longrightarrow> n = m"
proof (induction n arbitrary: m rule: str_nat.induct)
  case (1 n)
  show ?case
  proof (cases "n < 10")
    case True
    note n = this
    show ?thesis
    proof (cases "m < 10")
      case True
      with n 1(2) show ?thesis by (simp add: str_nat.simps [of n] str_nat.simps [of m] digit_char_inj)
    next
      case False
      with n 1(2) show ?thesis
        by (simp add: str_nat.simps [of n] str_nat.simps [of m] str_nat_not_Nil)
    qed
  next
    case False
    note n = this
    show ?thesis
    proof (cases "m < 10")
      case True
      with n 1(2) show ?thesis
        by (simp add: str_nat.simps [of n] str_nat.simps [of m] str_nat_not_Nil)
    next
      case False
      with n 1(2) have eq: "str_nat (n div 10) = str_nat (m div 10)"
        "digit_char (n mod 10) = digit_char (m mod 10)"
        by (simp_all add: str_nat.simps [of n] str_nat.simps [of m])
      from 1(1) [OF n eq(1)] have "n div 10 = m div 10" .
      moreover from eq(2) have "n mod 10 = m mod 10" by (simp add: digit_char_inj)
      ultimately show ?thesis by (metis div_mult_mod_eq)
    qed
  qed
qed

lemma minus_not_digit: "\<not> is_digit CHR ''-''"
  by (simp add: is_digit_def)

lemma str_int_inj: "str_int i = str_int j \<Longrightarrow> i = j"
proof -
  assume eq: "str_int i = str_int j"
  have hd_nat: "hd (str_nat k) \<noteq> CHR ''-''" for k
    using str_nat_digits [of k] str_nat_not_Nil(1) [of k] minus_not_digit
    by (cases "str_nat k") auto
  show ?thesis
  proof (cases "i < 0")
    case True
    note i = this
    show ?thesis
    proof (cases "j < 0")
      case True
      with i eq have "nat (- i) = nat (- j)" by (simp add: str_int_def str_nat_inj)
      with i True show ?thesis by simp
    next
      case False
      with i eq have "CHR ''-'' # str_nat (nat (- i)) = str_nat (nat j)" by (simp add: str_int_def)
      then have "hd (str_nat (nat j)) = CHR ''-''" by (metis list.sel(1))
      with hd_nat show ?thesis by blast
    qed
  next
    case False
    note i = this
    show ?thesis
    proof (cases "j < 0")
      case True
      with i eq have "str_nat (nat i) = CHR ''-'' # str_nat (nat (- j))" by (simp add: str_int_def)
      then have "hd (str_nat (nat i)) = CHR ''-''" by (metis list.sel(1))
      with hd_nat show ?thesis by blast
    next
      case False
      with i eq have "nat i = nat j" by (simp add: str_int_def str_nat_inj)
      with i False show ?thesis by simp
    qed
  qed
qed

lemma str_int_chars: "\<forall>c \<in> set (str_int i). is_digit c \<or> c = CHR ''-''"
  using str_nat_digits by (auto simp: str_int_def)


lemma str_nat_small: "n < 10 \<Longrightarrow> str_nat n = [digit_char n]"
  by (subst str_nat.simps) simp

lemma str_nat_large: "10 \<le> n \<Longrightarrow> str_nat n = str_nat (n div 10) @ [digit_char (n mod 10)]"
  by (subst str_nat.simps) simp

lemmas str_int_eval = str_int_def str_nat_small str_nat_large digit_char_def



lemma str_int_eq_iff: "(str_int i = str_int j) = (i = j)"
  by (auto dest: str_int_inj)

section \<open>Properties of the progress store\<close>

lemma processed_rucs_add_result:
  "processed_rucs (add_result pm r kb) = insert (ruc r) (processed_rucs pm)"
  by (simp add: add_result_def Let_def)

lemma processed_rucs_record_results:
  "processed_rucs (record_results pm rs kb) = processed_rucs pm \<union> ruc ` set rs"
  unfolding record_results_def
  by (induction rs arbitrary: pm) (auto simp: processed_rucs_add_result)

text \<open>
  Claim C1 (idempotent resume). \<open>add_result\<close> puts the id of the result into
  \<open>processed_rucs\<close> whatever its status; so once a result has been recorded for every id
  of a list \<open>S\<close>, \<open>get_pending_rucs\<close> returns the empty list for \<open>S\<close>, and a second run
  over \<open>S\<close> puts nothing on the task queue.
\<close>

theorem idempotent_resume:
  "ruc r \<in> processed_rucs (add_result pm r kb) \<and>
   (set S \<subseteq> ruc ` set rs \<longrightarrow>
      get_pending_rucs (record_results pm rs kb) S = [] \<and>
      seed_ruc_queue (record_results pm rs kb) S n = [])"
  by (auto simp: processed_rucs_add_result processed_rucs_record_results
        get_pending_rucs_def seed_ruc_queue_def filter_empty_conv)

theorem idempotent_resume_witness:
  "set [''20100000001'', ''20100000002''] \<subseteq> ruc ` set [failed_result, ok_result] \<and>
   get_pending_rucs (record_results (ProgressManager_init ''progress.json'')
        [failed_result, ok_result] 550) [''20100000001'', ''20100000002''] = [] \<and>
   seed_ruc_queue (record_results (ProgressManager_init ''progress.json'')
        [failed_result, ok_result] 550) [''20100000001'', ''20100000002''] 12 = []"
  using idempotent_resume [of failed_result "ProgressManager_init ''progress.json''" 550
      "[''20100000001'', ''20100000002'']" "[failed_result, ok_result]" 12]
  by (simp add: failed_result_def ok_result_def)

section \<open>Properties of the statistics\<close>

lemma update_fields:
  "processed (update s r kb) = processed s + 1"
  "successful (update s r kb) = (if success r then successful s + 1 else successful s)"
  "failed (update s r kb) = (if success r then failed s else failed s + 1)"
  by (simp_all add: update_def Let_def split: option.splits)

text \<open>
  Claim C10. \<open>update\<close> adds exactly 1 to \<open>processed\<close> and exactly 1 to exactly one of
  \<open>successful\<close> (when the result is a success) and \<open>failed\<close> (otherwise), leaving the other
  unchanged; hence \<open>processed = successful + failed\<close> is preserved by every update, for
  every result and every \<open>estimated_kb\<close>.
\<close>

theorem update_counters:
  "processed (update s r kb) = processed s + 1 \<and>
   (if success r
    then successful (update s r kb) = successful s + 1 \<and> failed (update s r kb) = failed s
    else failed (update s r kb) = failed s + 1 \<and> successful (update s r kb) = successful s) \<and>
   (processed s = successful s + failed s \<longrightarrow>
    processed (update s r kb) = successful (update s r kb) + failed (update s r kb))"
  by (simp add: update_fields)

theorem update_counters_witness:
  "processed Statistics_init = successful Statistics_init + failed Statistics_init \<and>
   processed (update Statistics_init failed_result 550) = 1 \<and>
   successful (update Statistics_init failed_result 550) = 0 \<and>
   failed (update Statistics_init failed_result 550) = 1 \<and>
   processed (update Statistics_init failed_result 550)
     = successful (update Statistics_init failed_result 550)
       + failed (update Statistics_init failed_result 550)"
  using update_counters [of Statistics_init failed_result 550]
  by (simp add: Statistics_init_def failed_result_def success_def)

section \<open>Properties of the checkpoint\<close>

lemma run_ops_append:
  "run_ops (xs @ ys) d = (case run_ops xs d of Inl e \<Rightarrow> Inl e | Inr d' \<Rightarrow> run_ops ys d')"
  by (induction xs arbitrary: d) (auto split: sum.splits)

lemma concat_pieces: "concat (pieces cuts s) = s"
  by (induction cuts arbitrary: s) auto

lemma run_temp_only:
  "\<forall>x \<in> set xs. temp_only t x \<Longrightarrow>
   \<exists>d'. run_ops xs d = Inr d' \<and> lock_held d' = lock_held d \<and>
        (\<forall>q. q \<noteq> t \<longrightarrow> files d' q = files d q)"
proof (induction xs arbitrary: d)
  case Nil
  then show ?case by simp
next
  case (Cons x xs)
  from Cons.prems have x: "temp_only t x" and xs: "\<forall>y \<in> set xs. temp_only t y" by simp_all
  from x obtain d1 where d1: "exec_op x d = Inr d1" "lock_held d1 = lock_held d"
    "\<forall>q. q \<noteq> t \<longrightarrow> files d1 q = files d q"
    by (cases x) (auto simp: temp_only_def)
  from Cons.IH [OF xs, of d1] obtain d' where "run_ops xs d1 = Inr d'"
    "lock_held d' = lock_held d1" "\<forall>q. q \<noteq> t \<longrightarrow> files d' q = files d1 q" by blast
  with d1 show ?case by simp
qed

lemma run_writes:
  "files d p = Some c \<Longrightarrow>
   run_ops (map (Write p) xs) d = Inr (d\<lparr>files := (files d)(p \<mapsto> c @ concat xs)\<rparr>)"
proof (induction xs arbitrary: d c)
  case Nil
  then show ?case by (simp add: fun_upd_idem)
next
  case (Cons x xs)
  let ?d1 = "d\<lparr>files := (files d)(p \<mapsto> c @ x)\<rparr>"
  have "run_ops (map (Write p) xs) ?d1
          = Inr (?d1\<lparr>files := (files ?d1)(p \<mapsto> (c @ x) @ concat xs)\<rparr>)"
    by (rule Cons.IH) simp
  also have "?d1\<lparr>files := (files ?d1)(p \<mapsto> (c @ x) @ concat xs)\<rparr>
          = d\<lparr>files := (files d)(p \<mapsto> c @ concat (x # xs))\<rparr>"
    by simp
  finally show ?case using Cons.prems by (simp del: fun_upd_apply)
qed

lemma save_ops_split:
  "save_ops dumps pm now cuts =
     save_front (progress_path pm @ ''.tmp'') (dumps (progress_data pm now)) cuts
     @ [Replace (progress_path pm @ ''.tmp'') (progress_path pm), Release]"
  by (simp add: save_ops_def save_front_def Let_def)

lemma run_save_front:
  "run_ops (save_front t text cuts) d = Inr (d\<lparr>files := (files d)(t \<mapsto> text), lock_held := True\<rparr>)"
proof -
  let ?d2 = "d\<lparr>lock_held := True, files := (files d)(t \<mapsto> [])\<rparr>"
  have "files ?d2 t = Some []" by simp
  from run_writes [OF this, of "pieces cuts text"]
  show ?thesis by (simp add: save_front_def concat_pieces)
qed

lemma run_take_save_front:
  "\<exists>d'. run_ops (take k (save_front t text cuts)) d = Inr d' \<and>
        lock_held d' = (if k = 0 then lock_held d else True) \<and>
        (\<forall>q. q \<noteq> t \<longrightarrow> files d' q = files d q)"
proof (cases k)
  case 0
  then show ?thesis by simp
next
  case (Suc j)
  let ?rest = "Open_w t # map (Write t) (pieces cuts text)"
  have "\<forall>x \<in> set (take j ?rest). temp_only t x"
    by (auto dest!: in_set_takeD simp: temp_only_def)
  from run_temp_only [OF this, of "d\<lparr>lock_held := True\<rparr>"] Suc
  show ?thesis by (auto simp: save_front_def)
qed

lemma temp_path_differs: "p @ ''.tmp'' \<noteq> p"
  by simp

lemma save_result:
  "save dumps pm now cuts d =
     Inr (d\<lparr>files := ((files d)(progress_path pm @ ''.tmp'' := None))
                        (progress_path pm \<mapsto> dumps (progress_data pm now)),
            lock_held := False\<rparr>)"
  by (simp add: save_def save_ops_split run_ops_append run_save_front)

text \<open>
  Claim C3 (atomic checkpoint). \<open>save\<close> serializes the whole progress state (processed ids,
  failure ledger, statistics, time of the save), writes the text to \<open>progress_path @ ''.tmp''\<close>
  and only then moves that file onto \<open>progress_path\<close> by a single \<open>Replace\<close> step, all of it
  between taking and releasing the lock. If the process is killed after any number \<open>k\<close> of
  the steps of \<open>save\<close>, however the text was cut into pieces on its way to the temporary
  file, the file at \<open>progress_path\<close> holds either exactly what it held before or exactly the
  complete new text.
\<close>

theorem atomic_checkpoint:
  "\<exists>d' d''.
     run_ops (take k (save_ops dumps pm now cuts)) d = Inr d' \<and>
     (files d' (progress_path pm) = files d (progress_path pm) \<or>
      files d' (progress_path pm) = Some (dumps (progress_data pm now))) \<and>
     (lock_held d' = (if k = 0 then lock_held d else k < length (save_ops dumps pm now cuts))) \<and>
     save dumps pm now cuts d = Inr d'' \<and>
     files d'' (progress_path pm) = Some (dumps (progress_data pm now)) \<and>
     files d'' (progress_path pm @ ''.tmp'') = None \<and>
     data_processed_rucs (progress_data pm now) = processed_rucs pm \<and>
     data_failed_rucs (progress_data pm now) = failed_rucs pm \<and>
     data_statistics (progress_data pm now) = statistics pm \<and>
     data_last_save (progress_data pm now) = now"
proof -
  let ?t = "progress_path pm @ ''.tmp''"
  let ?p = "progress_path pm"
  let ?text = "dumps (progress_data pm now)"
  let ?front = "save_front ?t ?text cuts"
  let ?ops = "save_ops dumps pm now cuts"
  have ops: "?ops = ?front @ [Replace ?t ?p, Release]" by (rule save_ops_split)
  have len: "length ?ops = length ?front + 2" by (simp add: ops)
  have pre: "\<exists>d'. run_ops (take k ?ops) d = Inr d' \<and>
     (files d' ?p = files d ?p \<or> files d' ?p = Some ?text) \<and>
     (lock_held d' = (if k = 0 then lock_held d else k < length ?ops))"
  proof -
    consider "k \<le> length ?front" | "k = length ?front + 1" | "k \<ge> length ?front + 2" by linarith
    then show ?thesis
    proof cases
      case 1
      then have tk: "take k ?ops = take k ?front" by (simp add: ops)
      from run_take_save_front [of k ?t ?text cuts d] obtain d' where
        "run_ops (take k ?front) d = Inr d'"
        "lock_held d' = (if k = 0 then lock_held d else True)"
        "\<forall>q. q \<noteq> ?t \<longrightarrow> files d' q = files d q" by blast
      with 1 tk len show ?thesis by auto
    next
      case 2
      then have tk: "take k ?ops = ?front @ [Replace ?t ?p]" by (simp add: ops)
      have nz: "k \<noteq> 0" "k < length ?ops" using 2 len by simp_all
      have "run_ops (take k ?ops) d
              = Inr (d\<lparr>files := ((files d)(?t := None))(?p \<mapsto> ?text), lock_held := True\<rparr>)"
        unfolding tk by (simp add: run_ops_append run_save_front)
      with nz show ?thesis by simp
    next
      case 3
      then have tk: "take k ?ops = ?ops" by (simp add: len)
      have nz: "k \<noteq> 0" "\<not> k < length ?ops" using 3 len by simp_all
      have "run_ops (take k ?ops) d
              = Inr (d\<lparr>files := ((files d)(?t := None))(?p \<mapsto> ?text), lock_held := False\<rparr>)"
        unfolding tk by (simp add: ops run_ops_append run_save_front)
      with nz show ?thesis by simp
    qed
  qed
  then obtain d' where d': "run_ops (take k ?ops) d = Inr d'"
     "files d' ?p = files d ?p \<or> files d' ?p = Some ?text"
     "lock_held d' = (if k = 0 then lock_held d else k < length ?ops)" by blast
  show ?thesis
    using d' by (simp add: save_result progress_data_def)
qed

section \<open>Properties of the result consumer\<close>




lemma consume_result_ok:
  "\<exists>st'. consume_result cfg dumps clock st r = Inr st' \<and>
     progress_manager st' = add_result (progress_manager st) r (estimated_kb_per_ruc cfg) \<and>
     results_writer st' = (if success r then write_result cfg (results_writer st) r
                           else results_writer st)"
  by (simp add: consume_result_def Let_def save_result)

lemma process_results_ok:
  "\<exists>st'. process_results cfg dumps clock st (map Some rs) = Inr st' \<and>
     progress_manager st' = record_results (progress_manager st) rs (estimated_kb_per_ruc cfg) \<and>
     results_writer st' = write_results cfg (results_writer st) (filter success rs)"
proof (induction rs arbitrary: st)
  case Nil
  then show ?case by (simp add: record_results_def write_results_def)
next
  case (Cons r rs)
  obtain st1 where st1: "consume_result cfg dumps clock st r = Inr st1"
     "progress_manager st1 = add_result (progress_manager st) r (estimated_kb_per_ruc cfg)"
     "results_writer st1 = (if success r then write_result cfg (results_writer st) r
                           else results_writer st)"
    using consume_result_ok by blast
  from Cons.IH [of st1] obtain st' where
     "process_results cfg dumps clock st1 (map Some rs) = Inr st'"
     "progress_manager st' = record_results (progress_manager st1) rs (estimated_kb_per_ruc cfg)"
     "results_writer st' = write_results cfg (results_writer st1) (filter success rs)"
    by blast
  with st1 show ?case by (simp add: record_results_def write_results_def)
qed

lemma processed_record_results:
  "processed (statistics (record_results pm rs kb)) = processed (statistics pm) + int (length rs)"
  unfolding record_results_def
  by (induction rs arbitrary: pm) (simp_all add: add_result_def Let_def update_fields)

text \<open>
  Claim C9. \<open>is_bandwidth_exceeded\<close> is false for every configuration and every state of
  the statistics, and the result consumer never stops on account of bandwidth: whatever
  \<open>max_bandwidth_mb\<close> and the accumulated estimate are, it records every result that
  arrives before the sentinel.
\<close>

theorem bandwidth_never_enforced:
  "\<not> is_bandwidth_exceeded cfg pm \<and>
   (\<exists>st'. process_results cfg dumps clock st (map Some rs) = Inr st' \<and>
      processed (statistics (progress_manager st'))
        = processed (statistics (progress_manager st)) + int (length rs) \<and>
      processed_rucs (progress_manager st') = processed_rucs (progress_manager st) \<union> ruc ` set rs)"
proof -
  from process_results_ok [of cfg dumps clock st rs] obtain st' where
    "process_results cfg dumps clock st (map Some rs) = Inr st'"
    "progress_manager st' = record_results (progress_manager st) rs (estimated_kb_per_ruc cfg)"
    by blast
  then show ?thesis
    by (simp add: is_bandwidth_exceeded_def processed_record_results processed_rucs_record_results)
qed




section \<open>Properties of the retry loop\<close>

lemma success_attempts_update [simp]: "success (res\<lparr>attempts := a\<rparr>) = success res"
  by (simp add: success_def)























section \<open>Properties of the session tokens\<close>

lemma split_at_separator:
  "c \<notin> set xs \<Longrightarrow> c \<notin> set xs' \<Longrightarrow> xs @ c # ys = xs' @ c # ys' \<Longrightarrow> xs = xs' \<and> ys = ys'"
proof (induction xs arbitrary: xs')
  case Nil
  then show ?case by (cases xs') auto
next
  case (Cons x xs)
  then show ?case by (cases xs') auto
qed

lemma letter_not_in_str_int:
  "CHR ''s'' \<notin> set (str_int i)" "CHR ''t'' \<notin> set (str_int i)" "CHR ''r'' \<notin> set (str_int i)"
proof -
  have "\<not> (is_digit CHR ''s'' \<or> CHR ''s'' = CHR ''-'')"
    "\<not> (is_digit CHR ''t'' \<or> CHR ''t'' = CHR ''-'')"
    "\<not> (is_digit CHR ''r'' \<or> CHR ''r'' = CHR ''-'')"
    by (simp_all add: is_digit_def)
  with str_int_chars [of i]
  show "CHR ''s'' \<notin> set (str_int i)" "CHR ''t'' \<notin> set (str_int i)"
    "CHR ''r'' \<notin> set (str_int i)"
    by blast+
qed

lemma session_token_inj:
  assumes "session_token w c n r = session_token w' c' n' r'"
  shows "w = w' \<and> c = c' \<and> n = n' \<and> r = r'"
proof -
  from assms have "str_int w @ CHR ''s'' # (str_int c @ ''t'' @ str_int n @ ''r'' @ str_int r)
      = str_int w' @ CHR ''s'' # (str_int c' @ ''t'' @ str_int n' @ ''r'' @ str_int r')"
    by (simp add: session_token_def)
  from split_at_separator [OF letter_not_in_str_int(1) letter_not_in_str_int(1) this]
  have w: "str_int w = str_int w'"
    and rest: "str_int c @ CHR ''t'' # (str_int n @ ''r'' @ str_int r)
      = str_int c' @ CHR ''t'' # (str_int n' @ ''r'' @ str_int r')" by simp_all
  from split_at_separator [OF letter_not_in_str_int(2) letter_not_in_str_int(2) rest]
  have c: "str_int c = str_int c'"
    and rest2: "str_int n @ CHR ''r'' # str_int r = str_int n' @ CHR ''r'' # str_int r'"
    by simp_all
  from split_at_separator [OF letter_not_in_str_int(3) letter_not_in_str_int(3) rest2]
  have "str_int n = str_int n'" "str_int r = str_int r'" by simp_all
  with w c show ?thesis by (simp add: str_int_inj)
qed

lemma get_session_id_token:
  "get_session_id pm w n r =
     (pm\<lparr>session_counter := session_counter pm + 1\<rparr>,
      session_token w (session_counter pm + 1) (n mod 100000) r)"
  by (simp add: get_session_id_def session_token_def Let_def)

lemma session_ids_counters:
  "t \<in> set (session_ids pm calls) \<Longrightarrow>
   \<exists>w c n r. t = session_token w c n r \<and> session_counter pm < c"
proof (induction calls arbitrary: pm)
  case Nil
  then show ?case by simp
next
  case (Cons call calls)
  obtain w n r where call: "call = (w, n, r)" by (cases call)
  let ?pm' = "pm\<lparr>session_counter := session_counter pm + 1\<rparr>"
  from Cons.prems call
  have "t = session_token w (session_counter pm + 1) (n mod 100000) r \<or>
        t \<in> set (session_ids ?pm' calls)"
    by (simp add: get_session_id_token)
  then show ?case
  proof
    assume "t = session_token w (session_counter pm + 1) (n mod 100000) r"
    then have "t = session_token w (session_counter pm + 1) (n mod 100000) r \<and>
        session_counter pm < session_counter pm + 1" by simp
    then show ?thesis by blast
  next
    assume "t \<in> set (session_ids ?pm' calls)"
    from Cons.IH [OF this] obtain w' c' n' r' where
      "t = session_token w' c' n' r'" "session_counter ?pm' < c'" by blast
    then have "t = session_token w' c' n' r' \<and> session_counter pm < c'" by simp
    then show ?thesis by blast
  qed
qed

lemma session_ids_distinct: "distinct (session_ids pm calls)"
proof (induction calls arbitrary: pm)
  case Nil
  then show ?case by simp
next
  case (Cons call calls)
  obtain w n r where call: "call = (w, n, r)" by (cases call)
  let ?pm' = "pm\<lparr>session_counter := session_counter pm + 1\<rparr>"
  let ?t = "session_token w (session_counter pm + 1) (n mod 100000) r"
  have "?t \<notin> set (session_ids ?pm' calls)"
  proof
    assume "?t \<in> set (session_ids ?pm' calls)"
    from session_ids_counters [OF this] obtain w' c' n' r' where
      "?t = session_token w' c' n' r'" "session_counter ?pm' < c'" by blast
    then show False by (auto dest!: session_token_inj)
  qed
  with Cons.IH [of ?pm'] call show ?case by (simp add: get_session_id_token)
qed

text \<open>
  Claim C8 (session-token uniqueness). The tokens returned by any sequence of calls of
  \<open>get_session_id\<close>, by whatever workers and with whatever clock readings and random
  draws, are pairwise distinct: each call increases the counter by one, and the token
  determines the counter (and the worker id), because the letters that separate the
  numbers are not digits.
\<close>

theorem session_tokens_unique:
  "distinct (session_ids pm calls) \<and>
   session_counter (fst (get_session_id pm w n r)) = session_counter pm + 1 \<and>
   (snd (get_session_id pm w n r) = snd (get_session_id pm' w' n' r') \<longrightarrow>
      session_counter pm = session_counter pm' \<and> w = w')"
  by (auto simp: session_ids_distinct get_session_id_token dest!: session_token_inj)

theorem session_tokens_unique_witness:
  "snd (get_session_id ProxyManager_init 0 1700000000123 12345)
     = snd (get_session_id ProxyManager_init 0 1700000000123 12345) \<and>
   session_ids ProxyManager_init
       [(0, 1700000000123, 12345), (0, 1700000000123, 12345), (1, 1700000000123, 12345)]
     = [''w0s1t123r12345'', ''w0s2t123r12345'', ''w1s3t123r12345''] \<and>
   distinct (session_ids ProxyManager_init
       [(0, 1700000000123, 12345), (0, 1700000000123, 12345), (1, 1700000000123, 12345)]) \<and>
   session_counter (fst (get_session_id ProxyManager_init 0 1700000000123 12345)) = 1"
proof -
  have ids: "session_ids ProxyManager_init
       [(0, 1700000000123, 12345), (0, 1700000000123, 12345), (1, 1700000000123, 12345)]
     = [''w0s1t123r12345'', ''w0s2t123r12345'', ''w1s3t123r12345'']"
    by (simp add: get_session_id_def ProxyManager_init_def Let_def str_int_eval)
  from session_tokens_unique [of ProxyManager_init
      "[(0, 1700000000123, 12345), (0, 1700000000123, 12345), (1, 1700000000123, 12345)]"
      0 1700000000123 12345 ProxyManager_init 0 1700000000123 12345]
  have "distinct (session_ids ProxyManager_init
       [(0, 1700000000123, 12345), (0, 1700000000123, 12345), (1, 1700000000123, 12345)])"
    and "session_counter (fst (get_session_id ProxyManager_init 0 1700000000123 12345))
       = session_counter ProxyManager_init + 1"
    by blast+
  with ids show ?thesis by (simp add: ProxyManager_init_def)
qed


section \<open>Properties of the rows of the output files\<close>
















section \<open>Properties of the batches\<close>

lemma batch_file_name_inj: "(batch_file_name cfg name j = batch_file_name cfg name k) = (j = k)"
  by (simp add: batch_file_name_def str_int_eq_iff)

lemma save_batch_fields:
  assumes "batch_results w \<noteq> []"
  shows "batch_files (save_batch cfg w) = batch_files w @
           [\<lparr>bf_name = batch_file_name cfg (input_filename w) (batch_number w + 1),
             bf_header = header_line, bf_rows = map csv_row (batch_results w)\<rparr>]"
    and "batch_results (save_batch cfg w) = []"
    and "batch_number (save_batch cfg w) = batch_number w + 1"
  using assms
  by (simp_all add: save_batch_def save_timing_report_def Let_def batch_file_name_def)

lemma save_batch_input_filename: "input_filename (save_batch cfg w) = input_filename w"
  by (simp add: save_batch_def save_timing_report_def Let_def)

lemma write_result_fields:
  "batch_results (write_result cfg w r) =
     (if batch_save_size cfg \<le> int (length (batch_results w)) + 1 then [] else batch_results w @ [r])"
  "batch_files (write_result cfg w r) =
     (if batch_save_size cfg \<le> int (length (batch_results w)) + 1
      then batch_files w @
           [\<lparr>bf_name = batch_file_name cfg (input_filename w) (batch_number w + 1),
             bf_header = header_line, bf_rows = map csv_row (batch_results w @ [r])\<rparr>]
      else batch_files w)"
  "batch_number (write_result cfg w r) =
     (if batch_save_size cfg \<le> int (length (batch_results w)) + 1
      then batch_number w + 1 else batch_number w)"
  "input_filename (write_result cfg w r) = input_filename w"
  by (simp_all add: write_result_def Let_def save_batch_fields save_batch_input_filename)

lemma Suc_div_mod:
  assumes "0 < B"
  shows "Suc (n mod B) = B \<Longrightarrow> Suc n mod B = 0 \<and> Suc n div B = Suc (n div B)"
    and "Suc (n mod B) \<noteq> B \<Longrightarrow> Suc n mod B = Suc (n mod B) \<and> Suc n div B = n div B"
  using assms by (simp_all add: mod_Suc div_Suc)

lemma batches_inv_write_results:
  assumes B: "1 \<le> batch_save_size cfg"
    and fresh: "batch_results w0 = []" "batch_files w0 = []" "batch_number w0 = 0"
  shows "batches_inv cfg w0 rs (write_results cfg w0 rs)"
proof (induction rs rule: rev_induct)
  case Nil
  then show ?case using fresh by (simp add: batches_inv_def write_results_def batch_sizes_def)
next
  case (snoc r rs)
  from B obtain b where b: "batch_save_size cfg = int b" "0 < b"
    by (cases "batch_save_size cfg") simp_all
  then have nb: "nat (batch_save_size cfg) = b" by simp
  let ?n = "length rs"
  let ?w = "write_results cfg w0 rs"
  have w': "write_results cfg w0 (rs @ [r]) = write_result cfg ?w r"
    by (simp add: write_results_def)
  from snoc have inv:
    "length (batch_results ?w) = ?n mod b"
    "batch_sizes ?w = replicate (?n div b) b"
    "batch_number ?w = int (?n div b)"
    "map bf_name (batch_files ?w)
       = map (\<lambda>k. batch_file_name cfg (input_filename w0) (int k)) [1 ..< Suc (?n div b)]"
    "input_filename ?w = input_filename w0"
    "concat (map bf_rows (batch_files ?w)) @ map csv_row (batch_results ?w) = map csv_row rs"
    by (simp_all add: batches_inv_def Let_def nb)
  have lt: "?n mod b < b" using b(2) by simp
  have full_iff: "(batch_save_size cfg \<le> int (length (batch_results ?w)) + 1) = (Suc (?n mod b) = b)"
    unfolding b(1) inv(1) using lt by linarith
  have rows: "concat (map bf_rows (batch_files ?w)) @ map csv_row (batch_results ?w @ [r])
      = map csv_row (rs @ [r])"
    using inv(6) by simp
  show ?case
  proof (cases "Suc (?n mod b) = b")
    case True
    from Suc_div_mod(1) [OF b(2) True]
    have ar: "Suc ?n mod b = 0" "Suc ?n div b = Suc (?n div b)" by simp_all
    have len: "length (batch_results ?w @ [r]) = b" using True inv(1) by simp
    have full: "batch_save_size cfg \<le> int (length (batch_results ?w)) + 1"
      using True full_iff by simp
    have f1: "batch_results (write_result cfg ?w r) = []"
      and f2: "batch_files (write_result cfg ?w r) = batch_files ?w @
           [\<lparr>bf_name = batch_file_name cfg (input_filename w0) (int (Suc (?n div b))),
             bf_header = header_line, bf_rows = map csv_row (batch_results ?w @ [r])\<rparr>]"
      and f3: "batch_number (write_result cfg ?w r) = int (Suc (?n div b))"
      and f4: "input_filename (write_result cfg ?w r) = input_filename w0"
      using full inv(3,5) by (simp_all add: write_result_fields add.commute)
    have "length (batch_results (write_result cfg ?w r)) = length (rs @ [r]) mod b"
      using f1 ar by simp
    moreover have "batch_sizes (write_result cfg ?w r) = replicate (length (rs @ [r]) div b) b"
      using inv(2) len ar unfolding batch_sizes_def f2
      by (simp add: replicate_append_same)
    moreover have "batch_number (write_result cfg ?w r) = int (length (rs @ [r]) div b)"
      using f3 ar by simp
    moreover have "map bf_name (batch_files (write_result cfg ?w r))
        = map (\<lambda>k. batch_file_name cfg (input_filename w0) (int k))
            [1 ..< Suc (length (rs @ [r]) div b)]"
      using inv(4) ar unfolding f2 by simp
    moreover have "concat (map bf_rows (batch_files (write_result cfg ?w r)))
          @ map csv_row (batch_results (write_result cfg ?w r)) = map csv_row (rs @ [r])"
      using inv(6) unfolding f1 f2 by simp
    ultimately show ?thesis
      unfolding w' batches_inv_def Let_def nb using f4 by blast
  next
    case False
    from Suc_div_mod(2) [OF b(2) False]
    have ar: "Suc ?n mod b = Suc (?n mod b)" "Suc ?n div b = ?n div b" by simp_all
    have nfull: "\<not> batch_save_size cfg \<le> int (length (batch_results ?w)) + 1"
      using False full_iff by simp
    have f1: "batch_results (write_result cfg ?w r) = batch_results ?w @ [r]"
      and f2: "batch_files (write_result cfg ?w r) = batch_files ?w"
      and f3: "batch_number (write_result cfg ?w r) = batch_number ?w"
      and f4: "input_filename (write_result cfg ?w r) = input_filename w0"
      using nfull inv(5) by (simp_all add: write_result_fields)
    have "length (batch_results (write_result cfg ?w r)) = length (rs @ [r]) mod b"
      unfolding f1 using inv(1) ar by simp
    moreover have "batch_sizes (write_result cfg ?w r) = replicate (length (rs @ [r]) div b) b"
      using inv(2) ar unfolding batch_sizes_def f2 by simp
    moreover have "batch_number (write_result cfg ?w r) = int (length (rs @ [r]) div b)"
      unfolding f3 using inv(3) ar by simp
    moreover have "map bf_name (batch_files (write_result cfg ?w r))
        = map (\<lambda>k. batch_file_name cfg (input_filename w0) (int k))
            [1 ..< Suc (length (rs @ [r]) div b)]"
      using inv(4) ar unfolding f2 by simp
    moreover have "concat (map bf_rows (batch_files (write_result cfg ?w r)))
          @ map csv_row (batch_results (write_result cfg ?w r)) = map csv_row (rs @ [r])"
      using inv(6) unfolding f1 f2 by simp
    ultimately show ?thesis
      unfolding w' batches_inv_def Let_def nb using f4 by blast
  qed
qed

lemma ceiling_div_nat:
  assumes "0 < B"
  shows "\<lceil>real N / real B\<rceil> = int (N div B) + (if N mod B = 0 then 0 else 1)"
proof -
  have "\<lceil>real N / real B\<rceil> = - (- int N div int B)"
    using ceiling_divide_eq_div [of "int N" "int B"] by simp
  moreover have "- int N div int B
      = (if int N mod int B = 0 then - (int N div int B) else - (int N div int B) - 1)"
    using assms by (intro zdiv_zminus1_eq_if) simp
  ultimately show ?thesis
    by (simp add: zdiv_int [symmetric] zmod_int [symmetric])
qed


lemma finalize_fields:
  "batch_files (finalize cfg w) =
     (if batch_results w \<noteq> []
      then batch_files w @
           [\<lparr>bf_name = batch_file_name cfg (input_filename w) (batch_number w + 1),
             bf_header = header_line, bf_rows = map csv_row (batch_results w)\<rparr>]
      else batch_files w)"
  "batch_results (finalize cfg w) = []"
  by (auto simp: finalize_def Let_def save_batch_fields save_timing_report_def)

text \<open>
  Claim C4 (batch partitioning). With a batch size \<open>B \<ge> 1\<close>, appending \<open>N\<close> results to
  a fresh writer and finalizing produces \<open>\<lceil>N / B\<rceil>\<close> batch files with pairwise distinct
  names: \<open>N div B\<close> files of exactly \<open>B\<close> rows, followed by one file of \<open>N mod B\<close> rows when
  \<open>B\<close> does not divide \<open>N\<close>; together they hold the rows of all results in order, and the
  buffer is empty afterwards. While appending, the buffer always holds fewer than \<open>B\<close>
  results, and \<open>write_result\<close> writes a batch file exactly when the buffer reaches \<open>B\<close>.
\<close>

theorem batch_partitioning:
  assumes "1 \<le> batch_save_size cfg"
    and "batch_results w0 = []" "batch_files w0 = []" "batch_number w0 = 0"
  shows "let B = nat (batch_save_size cfg); N = length rs;
             w = write_results cfg w0 rs; wf = finalize cfg w
         in batch_sizes wf = replicate (N div B) B @ (if N mod B = 0 then [] else [N mod B]) \<and>
            int (length (batch_files wf)) = \<lceil>real N / real B\<rceil> \<and>
            distinct (map bf_name (batch_files wf)) \<and>
            concat (map bf_rows (batch_files wf)) = map csv_row rs \<and>
            batch_results wf = [] \<and>
            length (batch_results w) < B \<and>
            length (batch_files (write_result cfg w r))
              = length (batch_files w) + (if length (batch_results w) + 1 = B then 1 else 0)"
proof -
  from assms(1) obtain b where b: "batch_save_size cfg = int b" "0 < b"
    by (cases "batch_save_size cfg") simp_all
  then have nb: "nat (batch_save_size cfg) = b" by simp
  let ?N = "length rs"
  let ?w = "write_results cfg w0 rs"
  let ?wf = "finalize cfg ?w"
  let ?name = "\<lambda>k. batch_file_name cfg (input_filename w0) (int k)"
  from batches_inv_write_results [OF assms, of rs] have inv:
    "length (batch_results ?w) = ?N mod b"
    "batch_sizes ?w = replicate (?N div b) b"
    "batch_number ?w = int (?N div b)"
    "map bf_name (batch_files ?w) = map ?name [1 ..< Suc (?N div b)]"
    "input_filename ?w = input_filename w0"
    "concat (map bf_rows (batch_files ?w)) @ map csv_row (batch_results ?w) = map csv_row rs"
    by (simp_all add: batches_inv_def Let_def nb)
  have empty_iff: "(batch_results ?w = []) = (?N mod b = 0)"
    using inv(1) by (metis length_0_conv)
  have sizes: "batch_sizes ?wf = replicate (?N div b) b @ (if ?N mod b = 0 then [] else [?N mod b])"
    using inv(1,2) empty_iff by (simp add: batch_sizes_def finalize_fields)
  have "length (batch_files ?wf) = length (batch_sizes ?wf)" by (simp add: batch_sizes_def)
  then have "int (length (batch_files ?wf)) = int (?N div b) + (if ?N mod b = 0 then 0 else 1)"
    unfolding sizes by simp
  then have count: "int (length (batch_files ?wf)) = \<lceil>real ?N / real b\<rceil>"
    using ceiling_div_nat [OF b(2), of ?N] by simp
  have names: "map bf_name (batch_files ?wf)
      = map ?name ([1 ..< Suc (?N div b)] @ (if ?N mod b = 0 then [] else [Suc (?N div b)]))"
    using inv(3,4,5) empty_iff by (simp add: finalize_fields add.commute)
  have inj: "inj_on ?name A" for A
    by (rule inj_onI) (simp add: batch_file_name_inj)
  have "distinct ([1 ..< Suc (?N div b)] @ (if ?N mod b = 0 then [] else [Suc (?N div b)]))"
    by simp
  with inj have dist: "distinct (map bf_name (batch_files ?wf))"
    unfolding names by (subst distinct_map) blast
  have rows: "concat (map bf_rows (batch_files ?wf)) = map csv_row rs"
  proof (cases "batch_results ?w = []")
    case True
    with inv(6) show ?thesis by (simp add: finalize_fields)
  next
    case False
    with inv(6) show ?thesis by (simp add: finalize_fields)
  qed
  have buf: "length (batch_results ?w) < b" using inv(1) b(2) by simp
  have "(batch_save_size cfg \<le> int (length (batch_results ?w)) + 1) = (length (batch_results ?w) + 1 = b)"
    unfolding b(1) using buf by linarith
  then have trig: "length (batch_files (write_result cfg ?w r))
      = length (batch_files ?w) + (if length (batch_results ?w) + 1 = b then 1 else 0)"
    by (simp add: write_result_fields)
  show ?thesis
    unfolding Let_def nb using sizes count dist rows buf trig
    by (simp add: finalize_fields)
qed

theorem batch_partitioning_witness:
  "1 \<le> batch_save_size batches_config \<and>
   batch_results (ResultsWriter_init ''rucs'') = [] \<and>
   batch_files (ResultsWriter_init ''rucs'') = [] \<and>
   batch_number (ResultsWriter_init ''rucs'') = 0 \<and>
   batch_sizes (finalize batches_config
      (write_results batches_config (ResultsWriter_init ''rucs'') (replicate 7 ok_result)))
     = [3, 3, 1] \<and>
   length (batch_files (finalize batches_config
      (write_results batches_config (ResultsWriter_init ''rucs'') (replicate 7 ok_result)))) = 3"
proof -
  have h: "1 \<le> batch_save_size batches_config"
    "batch_results (ResultsWriter_init ''rucs'') = []"
    "batch_files (ResultsWriter_init ''rucs'') = []"
    "batch_number (ResultsWriter_init ''rucs'') = 0"
    by (simp_all add: batches_config_def default_config_def ResultsWriter_init_def)
  have nb: "nat (batch_save_size batches_config) = 3"
    by (simp add: batches_config_def)
  from batch_partitioning [OF h, of "replicate 7 ok_result" ok_result]
  have s: "batch_sizes (finalize batches_config
      (write_results batches_config (ResultsWriter_init ''rucs'') (replicate 7 ok_result)))
     = [3, 3, 1]"
    unfolding Let_def nb by (simp add: numeral_2_eq_2)
  then have "length (batch_sizes (finalize batches_config
      (write_results batches_config (ResultsWriter_init ''rucs'') (replicate 7 ok_result)))) = 3"
    by simp
  then have l: "length (batch_files (finalize batches_config
      (write_results batches_config (ResultsWriter_init ''rucs'') (replicate 7 ok_result)))) = 3"
    by (simp add: batch_sizes_def)
  from h s l show ?thesis by simp
qed

end
